theory Spec2Isabelle
  imports Main
begin

section \<open>The operating system as the daemon sees it\<close>

text \<open>
  The package \<open>udevwriter\<close> reads one file, writes one file, removes it, runs
  processes and logs. Each of these is an operation on an explicit \<open>world\<close>:
  the files, the faults the system may answer with, the outcome of every process, the
  trace of the system calls issued so far and the log lines printed so far.
  Byte slices and Go strings are \<open>string\<close> (a list of 8-bit characters); a Go
  \<open>error\<close> is its message.
\<close>

type_synonym bytes = string
type_synonym os_error = string

datatype event =
    Ev_Open string
  | Ev_Write string bytes
  | Ev_Remove string
  | Ev_Exec "string list"

record world =
  files :: "string \<Rightarrow> bytes option"
  read_fault :: "string \<Rightarrow> os_error option"
  open_fault :: "string \<Rightarrow> os_error option"
  write_fault :: "string \<Rightarrow> (nat \<times> os_error) option"
  remove_fault :: "string \<Rightarrow> os_error option"
  proc_outcome :: "nat \<Rightarrow> string list \<Rightarrow> bytes \<times> os_error option"
  trace :: "event list"
  logs :: "(nat \<times> string) list"

text \<open>A Go call either returns or panics (an index out of range).\<close>

datatype 'a go = Panic | Return 'a

text \<open>\<open>glog.Infof\<close> is level 0; \<open>glog.V(n).Infof\<close> is level \<open>n\<close>.\<close>

definition glog_V :: "nat \<Rightarrow> string \<Rightarrow> world \<Rightarrow> world" where
  "glog_V n msg w = w\<lparr>logs := logs w @ [(n, msg)]\<rparr>"

definition glog_Infof :: "string \<Rightarrow> world \<Rightarrow> world" where
  "glog_Infof msg w = glog_V 0 msg w"

text \<open>
  \<open>ioutil.ReadFile\<close>: fails when the system reports a fault or the file does not
  exist; reading changes nothing.
\<close>

definition ioutil_ReadFile :: "string \<Rightarrow> world \<Rightarrow> os_error + bytes" where
  "ioutil_ReadFile p w =
     (case read_fault w p of
        Some e \<Rightarrow> Inl e
      | None \<Rightarrow>
          (case files w p of
             None \<Rightarrow> Inl (''open '' @ p @ '': no such file or directory'')
           | Some c \<Rightarrow> Inr c))"

text \<open>
  \<open>os.OpenFile(p, O_CREATE|O_TRUNC|O_WRONLY, 0600)\<close>: on success the file exists
  and is empty.
\<close>

definition os_OpenFile_trunc :: "string \<Rightarrow> world \<Rightarrow> os_error option \<times> world" where
  "os_OpenFile_trunc p w =
     (let w1 = w\<lparr>trace := trace w @ [Ev_Open p]\<rparr> in
      case open_fault w p of
        Some e \<Rightarrow> (Some e, w1)
      | None \<Rightarrow> (None, w1\<lparr>files := (files w1)(p \<mapsto> [])\<rparr>))"

text \<open>
  Writing \<open>d\<close> to the open file \<open>p\<close>. A write fault \<open>(n, e)\<close> lets \<open>n\<close> bytes
  through: a longer write fails with \<open>e\<close> and leaves the first \<open>n\<close> bytes.
\<close>

definition file_Write :: "string \<Rightarrow> bytes \<Rightarrow> world \<Rightarrow> os_error option \<times> world" where
  "file_Write p d w =
     (let w1 = w\<lparr>trace := trace w @ [Ev_Write p d]\<rparr> in
      case write_fault w p of
        None \<Rightarrow> (None, w1\<lparr>files := (files w1)(p \<mapsto> d)\<rparr>)
      | Some (n, e) \<Rightarrow>
          if n < length d then (Some e, w1\<lparr>files := (files w1)(p \<mapsto> take n d)\<rparr>)
          else (None, w1\<lparr>files := (files w1)(p \<mapsto> d)\<rparr>))"

text \<open>\<open>os.Remove\<close>: fails on a fault or when there is no such file.\<close>

definition os_Remove :: "string \<Rightarrow> world \<Rightarrow> os_error option \<times> world" where
  "os_Remove p w =
     (let w1 = w\<lparr>trace := trace w @ [Ev_Remove p]\<rparr> in
      case remove_fault w p of
        Some e \<Rightarrow> (Some e, w1)
      | None \<Rightarrow>
          (case files w p of
             None \<Rightarrow> (Some (''remove '' @ p @ '': no such file or directory''), w1)
           | Some c \<Rightarrow> (None, w1\<lparr>files := (files w1)(p := None)\<rparr>)))"

text \<open>
  \<open>osexec.Command(argv[0], argv[1:]...).CombinedOutput()\<close> for a non-empty
  \<open>argv\<close>: the process started after \<open>t\<close> earlier system calls answers
  \<open>proc_outcome w t argv\<close>, its combined output and its error, if any.
\<close>

definition CombinedOutput :: "string list \<Rightarrow> world \<Rightarrow> (bytes \<times> os_error option) \<times> world" where
  "CombinedOutput argv w =
     (proc_outcome w (length (trace w)) argv, w\<lparr>trace := trace w @ [Ev_Exec argv]\<rparr>)"

section \<open>Strings and paths of the Go library\<close>

fun strings_Join :: "string list \<Rightarrow> string \<Rightarrow> string" where
  "strings_Join [] sep = []"
| "strings_Join [x] sep = x"
| "strings_Join (x # y # ys) sep = x @ sep @ strings_Join (y # ys) sep"

fun split_on :: "char \<Rightarrow> string \<Rightarrow> string list" where
  "split_on c [] = [[]]"
| "split_on c (x # xs) =
     (if x = c then [] # split_on c xs
      else (case split_on c xs of [] \<Rightarrow> [[x]] | y # ys \<Rightarrow> (x # y) # ys))"

text \<open>
  \<open>path.Clean\<close> on the elements between slashes: empty elements and \<open>.\<close> are
  dropped, \<open>..\<close> removes the element before it, is dropped at the root, and is kept at
  the start of a relative path.
\<close>

fun clean_elems :: "bool \<Rightarrow> string list \<Rightarrow> string list \<Rightarrow> string list" where
  "clean_elems rooted acc [] = acc"
| "clean_elems rooted acc (c # cs) =
     (if c = [] \<or> c = ''.'' then clean_elems rooted acc cs
      else if c = ''..'' then
        (if acc \<noteq> [] \<and> last acc \<noteq> ''..'' then clean_elems rooted (butlast acc) cs
         else if rooted then clean_elems rooted acc cs
         else clean_elems rooted (acc @ [c]) cs)
      else clean_elems rooted (acc @ [c]) cs)"

definition path_Clean :: "string \<Rightarrow> string" where
  "path_Clean p =
     (if p = [] then ''.''
      else
        (let rooted = (hd p = CHR ''/'');
             body = strings_Join (clean_elems rooted [] (split_on CHR ''/'' p)) ''/''
         in if rooted then CHR ''/'' # body
            else if body = [] then ''.'' else body))"

text \<open>\<open>path.Join\<close> and, on Linux, \<open>filepath.Join\<close>.\<close>

fun path_Join :: "string list \<Rightarrow> string" where
  "path_Join [] = []"
| "path_Join (e # es) =
     (if e \<noteq> [] then path_Clean (strings_Join (e # es) ''/'') else path_Join es)"

section \<open>The command runners\<close>

definition mountNsPath :: string where
  "mountNsPath = ''1/ns/mnt''"

datatype ExecInterface = NewExec | NewNSEnterExec string

text \<open>
  \<open>(*exec).Exec\<close> indexes \<open>cmd[0]\<close> and slices \<open>cmd[1:]\<close>: both panic on an
  empty \<open>cmd\<close>.
\<close>

definition exec_Exec :: "string list \<Rightarrow> world \<Rightarrow> ((bytes \<times> os_error option) \<times> world) go" where
  "exec_Exec cmd w =
     (if cmd = [] then Panic
      else
        (case CombinedOutput (hd cmd # tl cmd) w of
           ((out, Some err), w1) \<Rightarrow>
             Return ((out, Some err),
               glog_V 4 (''executed '' @ strings_Join cmd '' '' @ '': '' @ out @ '' (error: '' @ err @ '')'') w1)
         | ((out, None), w1) \<Rightarrow>
             Return ((out, None),
               glog_V 4 (''executed '' @ strings_Join cmd '' '' @ '': '' @ out @ '' (success)'') w1)))"

text \<open>
  \<open>(*nsenterExec).Exec\<close> indexes the wrapped vector \<open>nsenterCmd\<close>, which starts
  with three elements of its own.
\<close>

definition nsenterExec_Exec ::
    "string \<Rightarrow> string list \<Rightarrow> world \<Rightarrow> ((bytes \<times> os_error option) \<times> world) go" where
  "nsenterExec_Exec hostProcDir cmd w =
     (let hostProcMountNsPath = path_Join [hostProcDir, mountNsPath];
          nsenterCmd = [''nsenter'', ''--mount='' @ hostProcMountNsPath, ''--''] @ cmd
      in if nsenterCmd = [] then Panic
         else
           (case CombinedOutput (hd nsenterCmd # tl nsenterCmd) w of
              ((out, Some err), w1) \<Rightarrow>
                Return ((out, Some err),
                  glog_V 4 (''executed '' @ strings_Join nsenterCmd '' '' @ '': '' @ out @ '' (error: '' @ err @ '')'') w1)
            | ((out, None), w1) \<Rightarrow>
                Return ((out, None),
                  glog_V 4 (''executed '' @ strings_Join nsenterCmd '' '' @ '': '' @ out @ '' (success)'') w1)))"

fun Exec :: "ExecInterface \<Rightarrow> string list \<Rightarrow> world \<Rightarrow> ((bytes \<times> os_error option) \<times> world) go" where
  "Exec NewExec cmd w = exec_Exec cmd w"
| "Exec (NewNSEnterExec hostProcDir) cmd w = nsenterExec_Exec hostProcDir cmd w"

section \<open>The rules file\<close>

definition udevRulesTemplate :: "string \<Rightarrow> string" where
  "udevRulesTemplate nm = ''99-kubernetes-'' @ nm @ ''.rules''"

text \<open>
  The template after \<open>template.Parse\<close>: text nodes and the two field actions
  \<open>{{.Rules}}\<close> and \<open>{{.Name}}\<close>.
\<close>

datatype tnode = Text string | Field string

definition udevFileTemplate :: string where
  \<open>udevFileTemplate =
     ''\<newline># Generated file, do not modify!\<newline>'' @
     ''\<newline># Skip non-block devices.\<newline>'' @
     ''SUBSYSTEM!="block", GOTO="out"\<newline>'' @
     ''\<newline>{{.Rules}}\<newline>'' @
     ''\<newline># Check if the device was matched by any of the rules above.\<newline>'' @
     ''ENV{KUBERNETES_STORAGE_CLASS}=="", GOTO="out"\<newline>'' @
     ''\<newline># The device matched, create a symlink with stable device name if possible.\<newline>'' @
     ''ENV{ID_SERIAL}!="", SYMLINK+="disk/kubernetes/{{.Name}}/$env{KUBERNETES_STORAGE_CLASS}/$env{ID_BUS}-$env{ID_SERIAL}"\<newline>'' @
     ''\<newline># Fall back to kernel name if stable device name does not exist.\<newline>'' @
     ''ENV{ID_SERIAL}=="", SYMLINK+="disk/kubernetes/{{.Name}}/$env{KUBERNETES_STORAGE_CLASS}/$kernel"\<newline>'' @
     ''\<newline>LABEL="out"\<newline>''\<close>

definition parsed_udevFileTemplate :: "tnode list" where
  \<open>parsed_udevFileTemplate =
     [Text (''\<newline># Generated file, do not modify!\<newline>'' @
            ''\<newline># Skip non-block devices.\<newline>'' @
            ''SUBSYSTEM!="block", GOTO="out"\<newline>'' @
            ''\<newline>''),
      Field ''Rules'',
      Text (''\<newline>'' @
            ''\<newline># Check if the device was matched by any of the rules above.\<newline>'' @
            ''ENV{KUBERNETES_STORAGE_CLASS}=="", GOTO="out"\<newline>'' @
            ''\<newline># The device matched, create a symlink with stable device name if possible.\<newline>'' @
            ''ENV{ID_SERIAL}!="", SYMLINK+="disk/kubernetes/''),
      Field ''Name'',
      Text (''/$env{KUBERNETES_STORAGE_CLASS}/$env{ID_BUS}-$env{ID_SERIAL}"\<newline>'' @
            ''\<newline># Fall back to kernel name if stable device name does not exist.\<newline>'' @
            ''ENV{ID_SERIAL}=="", SYMLINK+="disk/kubernetes/''),
      Field ''Name'',
      Text (''/$env{KUBERNETES_STORAGE_CLASS}/$kernel"\<newline>'' @
            ''\<newline>LABEL="out"\<newline>'')]\<close>

text \<open>The source text of a parsed template.\<close>

fun template_source :: "tnode list \<Rightarrow> string" where
  "template_source [] = []"
| "template_source (Text s # ns) = s @ template_source ns"
| "template_source (Field f # ns) = ''{{.'' @ f @ ''}}'' @ template_source ns"

text \<open>
  \<open>Execute\<close> on the struct \<open>{Name, Rules}\<close> walks the nodes in order: a text node
  is copied, a field of the struct is printed as it is (\<open>text/template\<close> escapes
  nothing), and any other field ends the execution with an error, after the output of
  the nodes before it. The bytes go to the file; the model writes them at once.
\<close>

fun eval_node :: "string \<Rightarrow> string \<Rightarrow> tnode \<Rightarrow> os_error + string" where
  "eval_node nm rules (Text s) = Inr s"
| "eval_node nm rules (Field f) =
     (if f = ''Name'' then Inr nm
      else if f = ''Rules'' then Inr rules
      else Inl (''can't evaluate field '' @ f))"

fun exec_nodes :: "tnode list \<Rightarrow> string \<Rightarrow> string \<Rightarrow> bytes \<times> os_error option" where
  "exec_nodes [] nm rules = ([], None)"
| "exec_nodes (n # ns) nm rules =
     (case eval_node nm rules n of
        Inl e \<Rightarrow> ([], Some e)
      | Inr s \<Rightarrow> (case exec_nodes ns nm rules of (out, err) \<Rightarrow> (s @ out, err)))"

definition render :: "tnode list \<Rightarrow> string \<Rightarrow> bytes \<Rightarrow> bytes" where
  "render tmpl nm rules = fst (exec_nodes tmpl nm rules)"

definition template_Execute ::
    "tnode list \<Rightarrow> string \<Rightarrow> string \<Rightarrow> bytes \<Rightarrow> world \<Rightarrow> os_error option \<times> world" where
  "template_Execute tmpl out nm rules w =
     (case exec_nodes tmpl nm rules of
        (d, None) \<Rightarrow> file_Write out d w
      | (d, Some e) \<Rightarrow>
          (case file_Write out d w of
             (Some e', w1) \<Rightarrow> (Some e', w1)
           | (None, w1) \<Rightarrow> (Some e, w1)))"

section \<open>UdevSync\<close>

record UdevSync =
  name :: string
  configFile :: string
  oldConfigContent :: bytes
  rulesFile :: string
  udevTemplate :: "tnode list"
  exec :: ExecInterface

text \<open>
  \<open>NewUdevSync\<close>; \<open>oldConfigContent\<close> is not set and so is the nil slice. The
  template constant parses, so \<open>template.Must\<close> returns it. The constructor is a
  function of its arguments here: its one log line, at level 4, names the rules file.
\<close>

definition NewUdevSync :: "string \<Rightarrow> string \<Rightarrow> string \<Rightarrow> ExecInterface \<Rightarrow> UdevSync" where
  "NewUdevSync configFile' rulesPath name' exec' =
     \<lparr>name = name',
      configFile = configFile',
      oldConfigContent = [],
      rulesFile = path_Join [rulesPath, udevRulesTemplate name'],
      udevTemplate = parsed_udevFileTemplate,
      exec = exec'\<rparr>"

text \<open>The loop of \<open>needApplyConfig\<close> from index \<open>i\<close> on.\<close>

function needApplyConfig_from :: "bytes \<Rightarrow> bytes \<Rightarrow> nat \<Rightarrow> bool" where
  "needApplyConfig_from config old i =
     (if i < length config then
        (if config ! i \<noteq> old ! i then True else needApplyConfig_from config old (Suc i))
      else False)"
  by pat_completeness auto
termination
  by (relation "measure (\<lambda>(config, old, i). length config - i)") auto

declare needApplyConfig_from.simps [simp del]

definition needApplyConfig :: "UdevSync \<Rightarrow> bytes \<Rightarrow> bool" where
  "needApplyConfig u config =
     (if length config \<noteq> length (oldConfigContent u) then True
      else needApplyConfig_from config (oldConfigContent u) 0)"

definition writeRulesFile :: "UdevSync \<Rightarrow> bytes \<Rightarrow> world \<Rightarrow> os_error option \<times> world" where
  "writeRulesFile u config w =
     (case os_OpenFile_trunc (rulesFile u) w of
        (Some err, w1) \<Rightarrow> (Some err, w1)
      | (None, w1) \<Rightarrow>
          (case template_Execute (udevTemplate u) (rulesFile u) (name u) config w1 of
             (Some err, w2) \<Rightarrow> (Some (''failed to execute template: '' @ err), w2)
           | (None, w2) \<Rightarrow>
               (None, glog_V 2 (''configuration written to '' @ rulesFile u) w2)))"

definition commands :: "string list list" where
  "commands =
     [[''udevadm'', ''control'', ''--reload''],
      [''udevadm'', ''trigger'', ''--subsystem-match=block''],
      [''udevadm'', ''settle'', ''--timeout=300'']]"

fun reloadUdev_loop ::
    "ExecInterface \<Rightarrow> string list list \<Rightarrow> world \<Rightarrow> (os_error option \<times> world) go" where
  "reloadUdev_loop ex [] w = Return (None, w)"
| "reloadUdev_loop ex (cmd # cmds) w =
     (case Exec ex cmd w of
        Panic \<Rightarrow> Panic
      | Return ((out, Some err), w1) \<Rightarrow>
          Return (Some (''error executing '' @ strings_Join cmd '' '' @ '': '' @ out @
                        '' ('' @ err @ ''))''), w1)
      | Return ((out, None), w1) \<Rightarrow> reloadUdev_loop ex cmds w1)"

definition reloadUdev :: "UdevSync \<Rightarrow> world \<Rightarrow> (os_error option \<times> world) go" where
  "reloadUdev u w = reloadUdev_loop (exec u) commands w"

definition applyConfig :: "UdevSync \<Rightarrow> world \<Rightarrow> (os_error option \<times> UdevSync \<times> world) go" where
  "applyConfig u w =
     (case ioutil_ReadFile (configFile u) w of
        Inl err \<Rightarrow> Return (Some err, u, w)
      | Inr config \<Rightarrow>
          if \<not> needApplyConfig u config then
            Return (None, u, glog_V 4 ''no change detected, skipping config update'' w)
          else
            (case writeRulesFile u config w of
               (Some err, w1) \<Rightarrow> Return (Some err, u, w1)
             | (None, w1) \<Rightarrow>
                 (case reloadUdev u w1 of
                    Panic \<Rightarrow> Panic
                  | Return (Some err, w2) \<Rightarrow>
                      Return (Some (''failed to reload udev rules: '' @ err), u, w2)
                  | Return (None, w2) \<Rightarrow>
                      Return (None, u\<lparr>oldConfigContent := config\<rparr>,
                              glog_V 2 ''configuration applied'' w2))))"

definition removeUdevFile :: "UdevSync \<Rightarrow> world \<Rightarrow> world go" where
  "removeUdevFile u w =
     (case os_Remove (rulesFile u) w of
        (Some err, w1) \<Rightarrow>
          Return (glog_Infof (''error removing udev file '' @ rulesFile u @ '': '' @ err) w1)
      | (None, w1) \<Rightarrow>
          (let w2 = glog_V 2 (''udev file '' @ rulesFile u @ '' removed'') w1 in
           case reloadUdev u w2 of
             Panic \<Rightarrow> Panic
           | Return (Some err, w3) \<Rightarrow> Return (glog_Infof (''error reloading udev: '' @ err) w3)
           | Return (None, w3) \<Rightarrow> Return (glog_V 2 ''udev reloaded'' w3)))"

section \<open>The loop\<close>

text \<open>
  \<open>Run\<close> applies the configuration once and then serves, one at a time, what its
  \<open>select\<close> receives: a tick of the ticker or the closing of \<open>stopCh\<close>. A schedule
  lists what is received, each with what the rest of the system did to the world while
  the loop was waiting; that cannot touch the trace or the log of the daemon. A loop
  whose schedule ends without \<open>Stop\<close> is still running.
\<close>

datatype signal = Tick | Stop

type_synonym schedule = "((world \<Rightarrow> world) \<times> signal) list"

definition interfere :: "(world \<Rightarrow> world) \<Rightarrow> world \<Rightarrow> world" where
  "interfere f w = (f w)\<lparr>trace := trace w, logs := logs w\<rparr>"

datatype run_state = Running UdevSync world | Returned UdevSync world

definition log_apply_error :: "os_error option \<Rightarrow> world \<Rightarrow> world" where
  "log_apply_error err w =
     (case err of
        Some e \<Rightarrow> glog_Infof (''failed to apply config: '' @ e) w
      | None \<Rightarrow> w)"

fun Run_loop :: "UdevSync \<Rightarrow> schedule \<Rightarrow> world \<Rightarrow> run_state go" where
  "Run_loop u [] w = Return (Running u w)"
| "Run_loop u ((f, Tick) # rest) w =
     (case applyConfig u (interfere f w) of
        Panic \<Rightarrow> Panic
      | Return (err, u1, w1) \<Rightarrow> Run_loop u1 rest (log_apply_error err w1))"
| "Run_loop u ((f, Stop) # rest) w =
     (case removeUdevFile u (glog_Infof ''stopping'' (interfere f w)) of
        Panic \<Rightarrow> Panic
      | Return w1 \<Rightarrow> Return (Returned u w1))"

definition Run :: "UdevSync \<Rightarrow> schedule \<Rightarrow> world \<Rightarrow> run_state go" where
  "Run u sched w =
     (case applyConfig u w of
        Panic \<Rightarrow> Panic
      | Return (err, u1, w1) \<Rightarrow> Run_loop u1 sched (log_apply_error err w1))"

section \<open>Vocabulary of the statements\<close>

text \<open>The argument vector a runner hands to the system for \<open>cmd\<close>.\<close>

fun argv_of :: "ExecInterface \<Rightarrow> string list \<Rightarrow> string list" where
  "argv_of NewExec cmd = cmd"
| "argv_of (NewNSEnterExec hostProcDir) cmd =
     [''nsenter'', ''--mount='' @ path_Join [hostProcDir, mountNsPath], ''--''] @ cmd"

text \<open>The line a runner logs after a process.\<close>

fun exec_message :: "string list \<Rightarrow> bytes \<times> os_error option \<Rightarrow> string" where
  "exec_message argv (out, Some err) =
     ''executed '' @ strings_Join argv '' '' @ '': '' @ out @ '' (error: '' @ err @ '')''"
| "exec_message argv (out, None) =
     ''executed '' @ strings_Join argv '' '' @ '': '' @ out @ '' (success)''"

text \<open>The error \<open>reloadUdev\<close> returns for a failed command.\<close>

definition reload_error :: "string list \<Rightarrow> bytes \<Rightarrow> os_error \<Rightarrow> os_error" where
  "reload_error cmd out err =
     ''error executing '' @ strings_Join cmd '' '' @ '': '' @ out @ '' ('' @ err @ ''))''"

text \<open>The processes of one pass of the reload sequence that got as far as command \<open>k\<close>.\<close>

definition reload_trace :: "ExecInterface \<Rightarrow> nat \<Rightarrow> event list" where
  "reload_trace ex k = map (\<lambda>c. Ev_Exec (argv_of ex c)) (take k commands)"

text \<open>
  A directory path in the form \<open>path.Clean\<close> leaves alone, other than the root and
  the current directory; and a path element that is a plain name.
\<close>

definition clean_dir :: "string \<Rightarrow> bool" where
  "clean_dir d = (path_Clean d = d \<and> d \<noteq> ''/'' \<and> d \<noteq> ''.'')"

definition plain_name :: "string \<Rightarrow> bool" where
  "plain_name c = (c \<noteq> [] \<and> c \<noteq> ''.'' \<and> c \<noteq> ''..'')"

text \<open>
  A world with no file and no fault, where every process succeeds and prints nothing;
  and variations of it.
\<close>

definition quiet_world :: world where
  "quiet_world =
     \<lparr>files = (\<lambda>p. None),
      read_fault = (\<lambda>p. None),
      open_fault = (\<lambda>p. None),
      write_fault = (\<lambda>p. None),
      remove_fault = (\<lambda>p. None),
      proc_outcome = (\<lambda>t argv. ([], None)),
      trace = [],
      logs = []\<rparr>"

definition with_file :: "string \<Rightarrow> bytes \<Rightarrow> world \<Rightarrow> world" where
  "with_file p c w = w\<lparr>files := (files w)(p \<mapsto> c)\<rparr>"

text \<open>Every process with \<open>word\<close> in its argument vector fails.\<close>

definition failing :: "string \<Rightarrow> world \<Rightarrow> world" where
  "failing word w =
     w\<lparr>proc_outcome := (\<lambda>t argv.
          if word \<in> set argv then (''no udev'', Some ''exit status 1'') else ([], None))\<rparr>"

section \<open>Change detection\<close>

lemma needApplyConfig_from_iff:
  "length config = length old \<Longrightarrow>
   needApplyConfig_from config old i \<longleftrightarrow> (\<exists>j. i \<le> j \<and> j < length config \<and> config ! j \<noteq> old ! j)"
proof (induction config old i rule: needApplyConfig_from.induct)
  case (1 config old i)
  show ?case
  proof (cases "i < length config")
    case False
    then show ?thesis by (subst needApplyConfig_from.simps) auto
  next
    case True
    show ?thesis
    proof (cases "config ! i \<noteq> old ! i")
      case True
      with \<open>i < length config\<close> show ?thesis
        by (subst needApplyConfig_from.simps) auto
    next
      case False
      with True "1.IH" "1.prems"
      have "needApplyConfig_from config old (Suc i) \<longleftrightarrow>
            (\<exists>j. Suc i \<le> j \<and> j < length config \<and> config ! j \<noteq> old ! j)"
        by simp
      moreover have "(\<exists>j. Suc i \<le> j \<and> j < length config \<and> config ! j \<noteq> old ! j) \<longleftrightarrow>
            (\<exists>j. i \<le> j \<and> j < length config \<and> config ! j \<noteq> old ! j)"
        using False by (metis Suc_leD Suc_leI le_neq_implies_less)
      ultimately show ?thesis
        using True False by (subst needApplyConfig_from.simps) simp
    qed
  qed
qed

lemma needApplyConfig_differs: "needApplyConfig u config \<longleftrightarrow> config \<noteq> oldConfigContent u"
proof (cases "length config = length (oldConfigContent u)")
  case False
  then show ?thesis by (auto simp: needApplyConfig_def)
next
  case True
  then show ?thesis
    by (simp add: needApplyConfig_def needApplyConfig_from_iff list_eq_iff_nth_eq)
qed

text \<open>
  C4. \<open>needApplyConfig\<close> answers true exactly when the bytes read differ from
  \<open>oldConfigContent\<close>, whatever their lengths; it answers false on equal sequences,
  the two empty ones included; and sequences of different lengths are reported changed
  by the length test alone, before any byte is compared.
\<close>

theorem needApplyConfig_iff_differs:
  "(needApplyConfig u config \<longleftrightarrow> config \<noteq> oldConfigContent u) \<and>
   (needApplyConfig (u\<lparr>oldConfigContent := config\<rparr>) config = False) \<and>
   (needApplyConfig (u\<lparr>oldConfigContent := []\<rparr>) [] = False) \<and>
   (needApplyConfig u config =
      (if length config \<noteq> length (oldConfigContent u) then True
       else needApplyConfig_from config (oldConfigContent u) 0))"
proof -
  have short: "needApplyConfig u config =
      (if length config \<noteq> length (oldConfigContent u) then True
       else needApplyConfig_from config (oldConfigContent u) 0)"
    by (rule needApplyConfig_def)
  show ?thesis
    using needApplyConfig_differs [of u config]
      needApplyConfig_differs [of "u\<lparr>oldConfigContent := config\<rparr>" config]
      needApplyConfig_differs [of "u\<lparr>oldConfigContent := []\<rparr>" "[]"] short
    by simp
qed

section \<open>Paths\<close>

lemma split_on_not_Nil [simp]: "split_on c s \<noteq> []"
  by (induction s) (auto split: list.splits)

lemma split_on_append:
  "split_on c (d @ c # s) = split_on c d @ split_on c s"
  by (induction d) (auto split: list.splits)

lemma strings_Join_append:
  "xs \<noteq> [] \<Longrightarrow> ys \<noteq> [] \<Longrightarrow>
   strings_Join (xs @ ys) sep = strings_Join xs sep @ sep @ strings_Join ys sep"
  by (induction xs sep rule: strings_Join.induct) (auto simp: neq_Nil_conv)

lemma strings_Join_split_on: "strings_Join (split_on c s) [c] = s"
proof (induction s)
  case Nil
  show ?case by simp
next
  case (Cons x s)
  show ?case
  proof (cases "x = c")
    case True
    with Cons show ?thesis
      by (cases "split_on c s") auto
  next
    case False
    with Cons show ?thesis
      by (cases "split_on c s"; cases "tl (split_on c s)") auto
  qed
qed

lemma clean_elems_plain:
  "list_all plain_name fs \<Longrightarrow> clean_elems rooted acc fs = acc @ fs"
  by (induction fs arbitrary: acc) (auto simp: plain_name_def)

lemma clean_elems_append:
  "clean_elems rooted acc (cs @ fs) = clean_elems rooted (clean_elems rooted acc cs) fs"
  by (induction cs arbitrary: acc) auto

lemma path_Clean_append_plain:
  assumes d: "clean_dir d" and s: "list_all plain_name (split_on CHR ''/'' s)"
  shows "path_Clean (d @ ''/'' @ s) = d @ ''/'' @ s"
proof -
  let ?r = "hd d = CHR ''/''"
  let ?es = "clean_elems ?r [] (split_on CHR ''/'' d)"
  from d have dne: "d \<noteq> []"
    by (auto simp: clean_dir_def path_Clean_def)
  from d dne have es: "?es \<noteq> []"
    by (auto simp: clean_dir_def path_Clean_def Let_def split: if_splits)
  from d dne have cd: "d = (if ?r then CHR ''/'' # strings_Join ?es ''/'' else strings_Join ?es ''/'')"
    by (auto simp: clean_dir_def path_Clean_def Let_def split: if_splits)
  have "clean_elems ?r [] (split_on CHR ''/'' (d @ ''/'' @ s)) = ?es @ split_on CHR ''/'' s"
    using s by (simp add: split_on_append clean_elems_append clean_elems_plain)
  then have body: "strings_Join (clean_elems ?r [] (split_on CHR ''/'' (d @ ''/'' @ s))) ''/'' =
      strings_Join ?es ''/'' @ ''/'' @ s"
    using es by (simp add: strings_Join_append strings_Join_split_on)
  have ne: "strings_Join ?es ''/'' @ ''/'' @ s \<noteq> []" by simp
  show ?thesis
  proof (cases ?r)
    case True
    have "path_Clean (d @ ''/'' @ s) = CHR ''/'' # (strings_Join ?es ''/'' @ ''/'' @ s)"
      using dne True body by (simp add: path_Clean_def Let_def)
    also have "\<dots> = d @ ''/'' @ s"
      using cd True by (metis append_Cons)
    finally show ?thesis .
  next
    case False
    have "path_Clean (d @ ''/'' @ s) = strings_Join ?es ''/'' @ ''/'' @ s"
      using dne False body by (simp add: path_Clean_def Let_def)
    also have "\<dots> = d @ ''/'' @ s"
      using cd False by metis
    finally show ?thesis .
  qed
qed

lemma path_Join_clean_dir:
  assumes "clean_dir d" and "list_all plain_name (split_on CHR ''/'' s)"
  shows "path_Join [d, s] = d @ ''/'' @ s"
proof -
  from assms(1) have "d \<noteq> []"
    by (auto simp: clean_dir_def path_Clean_def)
  then show ?thesis
    using path_Clean_append_plain [OF assms] by simp
qed

section \<open>Runners and the reload sequence\<close>

lemma Exec_nonempty:
  "cmd \<noteq> [] \<Longrightarrow>
   Exec ex cmd w =
     Return (proc_outcome w (length (trace w)) (argv_of ex cmd),
             glog_V 4 (exec_message (argv_of ex cmd) (proc_outcome w (length (trace w)) (argv_of ex cmd)))
               (w\<lparr>trace := trace w @ [Ev_Exec (argv_of ex cmd)]\<rparr>))"
  by (cases ex; cases "proc_outcome w (length (trace w)) (argv_of ex cmd)")
     (auto simp: exec_Exec_def nsenterExec_Exec_def CombinedOutput_def Let_def split: option.splits prod.splits)

text \<open>One command of the loop, on a non-empty vector.\<close>

lemma reloadUdev_loop_step:
  assumes "cmd \<noteq> []"
  shows "reloadUdev_loop ex (cmd # cmds) w =
     (let r = proc_outcome w (length (trace w)) (argv_of ex cmd);
          w1 = glog_V 4 (exec_message (argv_of ex cmd) r) (w\<lparr>trace := trace w @ [Ev_Exec (argv_of ex cmd)]\<rparr>)
      in case snd r of
           Some err \<Rightarrow> Return (Some (reload_error cmd (fst r) err), w1)
         | None \<Rightarrow> reloadUdev_loop ex cmds w1)"
  using assms
  by (cases "proc_outcome w (length (trace w)) (argv_of ex cmd)")
     (simp add: Exec_nonempty reload_error_def Let_def split: option.splits)

text \<open>
  C2. \<open>reloadUdev\<close> runs \<open>udevadm control --reload\<close>, \<open>udevadm trigger
  --subsystem-match=block\<close> and \<open>udevadm settle --timeout=300\<close> in this order
  through the runner of the \<open>UdevSync\<close>. It stops at the first command that returns
  an error: the commands after it are not run, and the error returned names the failed
  command and carries its combined output. Nothing else is run and no file is touched.
\<close>

theorem reloadUdev_ordered_fail_fast:
  fixes u :: UdevSync and w :: world
  defines "a \<equiv> (\<lambda>i. argv_of (exec u) (commands ! i))"
  defines "r \<equiv> (\<lambda>i. proc_outcome w (length (trace w) + i) (a i))"
  shows
    "commands =
       [[''udevadm'', ''control'', ''--reload''],
        [''udevadm'', ''trigger'', ''--subsystem-match=block''],
        [''udevadm'', ''settle'', ''--timeout=300'']] \<and>
     (\<exists>res w'. reloadUdev u w = Return (res, w') \<and> files w' = files w \<and>
        (case snd (r 0) of
           Some e0 \<Rightarrow>
             res = Some (reload_error (commands ! 0) (fst (r 0)) e0) \<and>
             trace w' = trace w @ [Ev_Exec (a 0)]
         | None \<Rightarrow>
            (case snd (r 1) of
               Some e1 \<Rightarrow>
                 res = Some (reload_error (commands ! 1) (fst (r 1)) e1) \<and>
                 trace w' = trace w @ [Ev_Exec (a 0), Ev_Exec (a 1)]
             | None \<Rightarrow>
                (case snd (r 2) of
                   Some e2 \<Rightarrow>
                     res = Some (reload_error (commands ! 2) (fst (r 2)) e2) \<and>
                     trace w' = trace w @ [Ev_Exec (a 0), Ev_Exec (a 1), Ev_Exec (a 2)]
                 | None \<Rightarrow>
                     res = None \<and>
                     trace w' = trace w @ [Ev_Exec (a 0), Ev_Exec (a 1), Ev_Exec (a 2)]))))"
  unfolding a_def r_def reloadUdev_def commands_def
  by (simp add: reloadUdev_loop_step Let_def glog_V_def del: reloadUdev_loop.simps(2)
        split: option.splits)

section \<open>Concrete states and worlds\<close>

lemma NewUdevSync_fields [simp]:
  "name (NewUdevSync cf rd nm ex) = nm"
  "configFile (NewUdevSync cf rd nm ex) = cf"
  "oldConfigContent (NewUdevSync cf rd nm ex) = []"
  "rulesFile (NewUdevSync cf rd nm ex) = path_Join [rd, udevRulesTemplate nm]"
  "udevTemplate (NewUdevSync cf rd nm ex) = parsed_udevFileTemplate"
  "exec (NewUdevSync cf rd nm ex) = ex"
  by (simp_all add: NewUdevSync_def)

lemma quiet_world_fields [simp]:
  "files quiet_world = (\<lambda>p. None)"
  "read_fault quiet_world = (\<lambda>p. None)"
  "open_fault quiet_world = (\<lambda>p. None)"
  "write_fault quiet_world = (\<lambda>p. None)"
  "remove_fault quiet_world = (\<lambda>p. None)"
  "proc_outcome quiet_world = (\<lambda>t argv. ([], None))"
  "trace quiet_world = []"
  "logs quiet_world = []"
  by (simp_all add: quiet_world_def)

lemma with_file_fields [simp]:
  "files (with_file p c w) = (files w)(p \<mapsto> c)"
  "read_fault (with_file p c w) = read_fault w"
  "open_fault (with_file p c w) = open_fault w"
  "write_fault (with_file p c w) = write_fault w"
  "remove_fault (with_file p c w) = remove_fault w"
  "proc_outcome (with_file p c w) = proc_outcome w"
  "trace (with_file p c w) = trace w"
  "logs (with_file p c w) = logs w"
  by (simp_all add: with_file_def)

lemma failing_fields [simp]:
  "files (failing word w) = files w"
  "read_fault (failing word w) = read_fault w"
  "open_fault (failing word w) = open_fault w"
  "write_fault (failing word w) = write_fault w"
  "remove_fault (failing word w) = remove_fault w"
  "proc_outcome (failing word w) =
     (\<lambda>t argv. if word \<in> set argv then (''no udev'', Some ''exit status 1'') else ([], None))"
  "trace (failing word w) = trace w"
  "logs (failing word w) = logs w"
  by (simp_all add: failing_def)

section \<open>The reload sequence at work, and the namespace-entering runner\<close>

theorem reloadUdev_ordered_fail_fast_witness:
  "\<exists>w'. reloadUdev (NewUdevSync ''/etc/rules.conf'' ''/run/udev/rules.d'' ''pool-a'' NewExec)
            (failing ''trigger'' quiet_world) =
          Return (Some ''error executing udevadm trigger --subsystem-match=block: no udev (exit status 1))'', w') \<and>
        trace w' =
          [Ev_Exec [''udevadm'', ''control'', ''--reload''],
           Ev_Exec [''udevadm'', ''trigger'', ''--subsystem-match=block'']]"
  using reloadUdev_ordered_fail_fast
    [of "NewUdevSync ''/etc/rules.conf'' ''/run/udev/rules.d'' ''pool-a'' NewExec"
        "failing ''trigger'' quiet_world"]
  by (auto simp: reload_error_def commands_def)

lemma mountNsPath_plain: "list_all plain_name (split_on CHR ''/'' mountNsPath)"
  by (simp add: mountNsPath_def plain_name_def)

text \<open>
  C7. For every command vector \<open>cmd\<close>, the namespace-entering runner starts exactly
  one process, whose vector is \<open>nsenter\<close>, \<open>--mount=\<close> followed by the join of the
  host-proc directory with \<open>1/ns/mnt\<close>, \<open>--\<close>, and then \<open>cmd\<close> unchanged: the
  mount namespace of process 1. For a host-proc directory in clean form the joined path is
  the directory, a slash and \<open>1/ns/mnt\<close>.
\<close>

theorem nsenterExec_wraps:
  "\<exists>r w'. nsenterExec_Exec hostProcDir cmd w = Return (r, w') \<and>
      r = proc_outcome w (length (trace w))
            ([''nsenter'', ''--mount='' @ path_Join [hostProcDir, ''1/ns/mnt''], ''--''] @ cmd) \<and>
      trace w' = trace w @
        [Ev_Exec ([''nsenter'', ''--mount='' @ path_Join [hostProcDir, ''1/ns/mnt''], ''--''] @ cmd)] \<and>
      (clean_dir hostProcDir \<longrightarrow>
         trace w' = trace w @
           [Ev_Exec ([''nsenter'', ''--mount='' @ hostProcDir @ ''/1/ns/mnt'', ''--''] @ cmd)])"
proof -
  let ?argv = "[''nsenter'', ''--mount='' @ path_Join [hostProcDir, ''1/ns/mnt''], ''--''] @ cmd"
  have run: "nsenterExec_Exec hostProcDir cmd w =
      Return (proc_outcome w (length (trace w)) ?argv,
              glog_V 4 (exec_message ?argv (proc_outcome w (length (trace w)) ?argv))
                (w\<lparr>trace := trace w @ [Ev_Exec ?argv]\<rparr>))"
    by (cases "proc_outcome w (length (trace w)) ?argv")
       (auto simp: nsenterExec_Exec_def CombinedOutput_def Let_def mountNsPath_def
             split: option.splits)
  have "clean_dir hostProcDir \<Longrightarrow> path_Join [hostProcDir, ''1/ns/mnt''] = hostProcDir @ ''/1/ns/mnt''"
    using path_Join_clean_dir [of hostProcDir mountNsPath] mountNsPath_plain
    by (simp add: mountNsPath_def)
  with run show ?thesis
    by (auto simp: glog_V_def)
qed

theorem nsenterExec_wraps_witness:
  "clean_dir ''/rootfs/proc'' \<and>
   (\<exists>r w'. nsenterExec_Exec ''/rootfs/proc'' [''udevadm'', ''settle'', ''--timeout=300''] quiet_world =
        Return (r, w') \<and>
      trace w' =
        [Ev_Exec [''nsenter'', ''--mount=/rootfs/proc/1/ns/mnt'', ''--'',
                  ''udevadm'', ''settle'', ''--timeout=300'']])"
proof -
  have c: "clean_dir ''/rootfs/proc''"
    by (simp add: clean_dir_def path_Clean_def Let_def)
  show ?thesis
    using c nsenterExec_wraps [of "''/rootfs/proc''" "[''udevadm'', ''settle'', ''--timeout=300'']" quiet_world]
    by auto
qed

section \<open>Rendering and writing the rules file\<close>

text \<open>The parsed template is the constant \<open>udevFileTemplate\<close> of the source, cut at its actions.\<close>

lemma template_faithful: "template_source parsed_udevFileTemplate = udevFileTemplate"
  by (simp add: parsed_udevFileTemplate_def udevFileTemplate_def)

lemma writeRulesFile_no_fault:
  assumes "open_fault w (rulesFile u) = None" and "write_fault w (rulesFile u) = None"
    and "snd (exec_nodes (udevTemplate u) (name u) config) = None"
  shows "writeRulesFile u config w =
     (None,
      w\<lparr>trace := trace w @
            [Ev_Open (rulesFile u),
             Ev_Write (rulesFile u) (render (udevTemplate u) (name u) config)],
        files := (files w)(rulesFile u \<mapsto> render (udevTemplate u) (name u) config),
        logs := logs w @ [(2, ''configuration written to '' @ rulesFile u)]\<rparr>)"
  using assms
  by (cases "exec_nodes (udevTemplate u) (name u) config")
     (simp add: writeRulesFile_def os_OpenFile_trunc_def template_Execute_def file_Write_def
        glog_V_def Let_def render_def)

lemma writeRulesFile_nil_template:
  assumes "writeRulesFile u config w = (None, w1)"
  shows "snd (exec_nodes (udevTemplate u) (name u) config) = None"
  using assms
  by (cases "exec_nodes (udevTemplate u) (name u) config")
     (auto simp: writeRulesFile_def template_Execute_def split: prod.splits option.splits)

lemma writeRulesFile_trace:
  "\<exists>rest. trace (snd (writeRulesFile u config w)) = trace w @ Ev_Open (rulesFile u) # rest"
  by (auto simp: writeRulesFile_def os_OpenFile_trunc_def template_Execute_def file_Write_def
        glog_V_def Let_def split: option.splits prod.splits)

lemma render_udevFileTemplate:
  \<open>render parsed_udevFileTemplate nm rules =
     (''\<newline># Generated file, do not modify!\<newline>'' @
      ''\<newline># Skip non-block devices.\<newline>'' @
      ''SUBSYSTEM!="block", GOTO="out"\<newline>'' @
      ''\<newline>'') @
     rules @
     (''\<newline>'' @
      ''\<newline># Check if the device was matched by any of the rules above.\<newline>'' @
      ''ENV{KUBERNETES_STORAGE_CLASS}=="", GOTO="out"\<newline>'' @
      ''\<newline># The device matched, create a symlink with stable device name if possible.\<newline>'' @
      ''ENV{ID_SERIAL}!="", SYMLINK+="disk/kubernetes/'' @ nm @
      ''/$env{KUBERNETES_STORAGE_CLASS}/$env{ID_BUS}-$env{ID_SERIAL}"\<newline>'' @
      ''\<newline># Fall back to kernel name if stable device name does not exist.\<newline>'' @
      ''ENV{ID_SERIAL}=="", SYMLINK+="disk/kubernetes/'' @ nm @
      ''/$env{KUBERNETES_STORAGE_CLASS}/$kernel"\<newline>'' @
      ''\<newline>LABEL="out"\<newline>'')\<close>
  by (simp add: render_def parsed_udevFileTemplate_def)

lemma exec_udevFileTemplate_ok: "snd (exec_nodes parsed_udevFileTemplate nm rules) = None"
  by (simp add: parsed_udevFileTemplate_def)

text \<open>
  C8. Executing the template is a function of the name and the configuration bytes
  alone, and it fails on no byte sequence: the output is the configuration bytes,
  unchanged, between a prefix and a suffix that do not depend on them. Whatever the
  world and the other fields of the state, a write that meets no fault of the file
  system succeeds and leaves exactly that output in the rules file.
\<close>

theorem render_pure_total:
  "(\<exists>pre post. \<forall>config.
      exec_nodes parsed_udevFileTemplate nm config = (pre @ config @ post, None)) \<and>
   (\<forall>u w config.
      name u = nm \<and> udevTemplate u = parsed_udevFileTemplate \<and>
      open_fault w (rulesFile u) = None \<and> write_fault w (rulesFile u) = None \<longrightarrow>
      (\<exists>w'. writeRulesFile u config w = (None, w') \<and>
         files w' (rulesFile u) = Some (render parsed_udevFileTemplate nm config)))"
proof (intro conjI allI impI)
  have "exec_nodes parsed_udevFileTemplate nm config =
      (render parsed_udevFileTemplate nm config, None)" for config
    using exec_udevFileTemplate_ok [of nm config]
    by (cases "exec_nodes parsed_udevFileTemplate nm config") (simp add: render_def)
  then show "\<exists>pre post. \<forall>config.
      exec_nodes parsed_udevFileTemplate nm config = (pre @ config @ post, None)"
    unfolding render_udevFileTemplate by (intro exI allI)
next
  fix u :: UdevSync and w :: world and config :: bytes
  assume "name u = nm \<and> udevTemplate u = parsed_udevFileTemplate \<and>
      open_fault w (rulesFile u) = None \<and> write_fault w (rulesFile u) = None"
  then show "\<exists>w'. writeRulesFile u config w = (None, w') \<and>
         files w' (rulesFile u) = Some (render parsed_udevFileTemplate nm config)"
    using writeRulesFile_no_fault [of w u config] exec_udevFileTemplate_ok [of nm config]
    by auto
qed

theorem render_pure_total_witness:
  \<open>\<exists>w1 w2.
     writeRulesFile (NewUdevSync ''/etc/rules.conf'' ''/run/udev/rules.d'' ''pool-a'' NewExec)
       ''KERNELS=="sda"'' quiet_world = (None, w1) \<and>
     writeRulesFile (NewUdevSync ''/etc/other.conf'' ''/tmp'' ''pool-a'' (NewNSEnterExec ''/rootfs/proc''))
       ''KERNELS=="sda"'' (with_file ''/tmp/99-kubernetes-pool-a.rules'' ''old'' quiet_world) = (None, w2) \<and>
     files w1 ''/run/udev/rules.d/99-kubernetes-pool-a.rules'' =
       files w2 ''/tmp/99-kubernetes-pool-a.rules'' \<and>
     files w1 ''/run/udev/rules.d/99-kubernetes-pool-a.rules'' =
       Some (render parsed_udevFileTemplate ''pool-a'' ''KERNELS=="sda"'')\<close>
proof -
  let ?u1 = "NewUdevSync ''/etc/rules.conf'' ''/run/udev/rules.d'' ''pool-a'' NewExec"
  let ?u2 = "NewUdevSync ''/etc/other.conf'' ''/tmp'' ''pool-a'' (NewNSEnterExec ''/rootfs/proc'')"
  have p1: "rulesFile ?u1 = ''/run/udev/rules.d/99-kubernetes-pool-a.rules''"
    by (simp add: udevRulesTemplate_def path_Clean_def Let_def)
  have p2: "rulesFile ?u2 = ''/tmp/99-kubernetes-pool-a.rules''"
    by (simp add: udevRulesTemplate_def path_Clean_def Let_def)
  from render_pure_total [of "''pool-a''"]
  have all: "\<And>(u::UdevSync) (w::world) config. name u = ''pool-a'' \<Longrightarrow> udevTemplate u = parsed_udevFileTemplate \<Longrightarrow>
      open_fault w (rulesFile u) = None \<Longrightarrow> write_fault w (rulesFile u) = None \<Longrightarrow>
      (\<exists>w'. writeRulesFile u config w = (None, w') \<and>
         files w' (rulesFile u) = Some (render parsed_udevFileTemplate ''pool-a'' config))"
    by blast
  show ?thesis
    using all [of ?u1 quiet_world] all [of ?u2 "with_file ''/tmp/99-kubernetes-pool-a.rules'' ''old'' quiet_world"]
    unfolding p1 p2
    by (simp del: NewUdevSync_fields(4)) metis
qed

lemma udevRulesTemplate_pool_a_plain:
  "list_all plain_name (split_on CHR ''/'' (udevRulesTemplate ''pool-a''))"
  by (simp add: udevRulesTemplate_def plain_name_def)

text \<open>
  C6. With the name \<open>pool-a\<close> and a rules directory in clean form, the rules file of
  the state built by \<open>NewUdevSync\<close> is the directory, a slash and
  \<open>99-kubernetes-pool-a.rules\<close>. Writing the configuration
  \<open>KERNELS=="sda", ENV{KUBERNETES_STORAGE_CLASS}="fast"\<close> opens and writes that file
  and no other, and leaves in it the configuration bytes, unchanged, after the guard for
  block devices and before the two \<open>SYMLINK\<close> rules, both under
  \<open>disk/kubernetes/pool-a/\<close>.
\<close>

theorem scenario_pool_a:
  fixes rulesDir :: string and w :: world and configFile' :: string and exec' :: ExecInterface
  defines \<open>config \<equiv> ''KERNELS=="sda", ENV{KUBERNETES_STORAGE_CLASS}="fast"''\<close>
  defines "u \<equiv> NewUdevSync configFile' rulesDir ''pool-a'' exec'"
  assumes "clean_dir rulesDir"
    and "open_fault w (rulesDir @ ''/99-kubernetes-pool-a.rules'') = None"
    and "write_fault w (rulesDir @ ''/99-kubernetes-pool-a.rules'') = None"
  shows
    \<open>rulesFile u = rulesDir @ ''/99-kubernetes-pool-a.rules'' \<and>
     (\<exists>w' content.
        writeRulesFile u config w = (None, w') \<and>
        trace w' = trace w @
          [Ev_Open (rulesDir @ ''/99-kubernetes-pool-a.rules''),
           Ev_Write (rulesDir @ ''/99-kubernetes-pool-a.rules'') content] \<and>
        files w' (rulesDir @ ''/99-kubernetes-pool-a.rules'') = Some content \<and>
        content =
          ''\<newline># Generated file, do not modify!\<newline>'' @
          ''\<newline># Skip non-block devices.\<newline>'' @
          ''SUBSYSTEM!="block", GOTO="out"\<newline>'' @
          ''\<newline>KERNELS=="sda", ENV{KUBERNETES_STORAGE_CLASS}="fast"\<newline>'' @
          ''\<newline># Check if the device was matched by any of the rules above.\<newline>'' @
          ''ENV{KUBERNETES_STORAGE_CLASS}=="", GOTO="out"\<newline>'' @
          ''\<newline># The device matched, create a symlink with stable device name if possible.\<newline>'' @
          ''ENV{ID_SERIAL}!="", SYMLINK+="disk/kubernetes/pool-a/$env{KUBERNETES_STORAGE_CLASS}/$env{ID_BUS}-$env{ID_SERIAL}"\<newline>'' @
          ''\<newline># Fall back to kernel name if stable device name does not exist.\<newline>'' @
          ''ENV{ID_SERIAL}=="", SYMLINK+="disk/kubernetes/pool-a/$env{KUBERNETES_STORAGE_CLASS}/$kernel"\<newline>'' @
          ''\<newline>LABEL="out"\<newline>'')\<close>
proof -
  let ?p = "rulesDir @ ''/99-kubernetes-pool-a.rules''"
  have p: "rulesFile u = ?p"
    using path_Join_clean_dir [OF \<open>clean_dir rulesDir\<close> udevRulesTemplate_pool_a_plain]
    by (simp add: u_def udevRulesTemplate_def)
  have w: "writeRulesFile u config w =
     (None,
      w\<lparr>trace := trace w @ [Ev_Open ?p, Ev_Write ?p (render parsed_udevFileTemplate ''pool-a'' config)],
        files := (files w)(?p \<mapsto> render parsed_udevFileTemplate ''pool-a'' config),
        logs := logs w @ [(2, ''configuration written to '' @ ?p)]\<rparr>)"
    using writeRulesFile_no_fault [of w u config] assms(4,5) p
    by (simp add: u_def exec_udevFileTemplate_ok del: NewUdevSync_fields(4))
  have r: \<open>render parsed_udevFileTemplate ''pool-a'' config =
          ''\<newline># Generated file, do not modify!\<newline>'' @
          ''\<newline># Skip non-block devices.\<newline>'' @
          ''SUBSYSTEM!="block", GOTO="out"\<newline>'' @
          ''\<newline>KERNELS=="sda", ENV{KUBERNETES_STORAGE_CLASS}="fast"\<newline>'' @
          ''\<newline># Check if the device was matched by any of the rules above.\<newline>'' @
          ''ENV{KUBERNETES_STORAGE_CLASS}=="", GOTO="out"\<newline>'' @
          ''\<newline># The device matched, create a symlink with stable device name if possible.\<newline>'' @
          ''ENV{ID_SERIAL}!="", SYMLINK+="disk/kubernetes/pool-a/$env{KUBERNETES_STORAGE_CLASS}/$env{ID_BUS}-$env{ID_SERIAL}"\<newline>'' @
          ''\<newline># Fall back to kernel name if stable device name does not exist.\<newline>'' @
          ''ENV{ID_SERIAL}=="", SYMLINK+="disk/kubernetes/pool-a/$env{KUBERNETES_STORAGE_CLASS}/$kernel"\<newline>'' @
          ''\<newline>LABEL="out"\<newline>''\<close>
    by (simp add: render_udevFileTemplate config_def)
  show ?thesis
    unfolding p w r by simp
qed

theorem scenario_pool_a_witness:
  \<open>clean_dir ''/run/udev/rules.d'' \<and>
   rulesFile (NewUdevSync ''/etc/local-storage-discoverer/rules.conf'' ''/run/udev/rules.d'' ''pool-a'' NewExec) =
     ''/run/udev/rules.d/99-kubernetes-pool-a.rules'' \<and>
   (\<exists>w'. writeRulesFile
        (NewUdevSync ''/etc/local-storage-discoverer/rules.conf'' ''/run/udev/rules.d'' ''pool-a'' NewExec)
        ''KERNELS=="sda", ENV{KUBERNETES_STORAGE_CLASS}="fast"'' quiet_world = (None, w') \<and>
      files w' ''/run/udev/rules.d/99-kubernetes-pool-a.rules'' =
        Some (render parsed_udevFileTemplate ''pool-a''
                ''KERNELS=="sda", ENV{KUBERNETES_STORAGE_CLASS}="fast"''))\<close>
proof -
  have c: "clean_dir ''/run/udev/rules.d''"
    by (simp add: clean_dir_def path_Clean_def Let_def)
  show ?thesis
    using c scenario_pool_a [OF c, where w = quiet_world
        and configFile' = "''/etc/local-storage-discoverer/rules.conf''" and exec' = NewExec]
    by (auto simp add: render_udevFileTemplate simp del: NewUdevSync_fields(4))
qed

section \<open>One pass of the reload sequence\<close>

lemma reloadUdev_result:
  "\<exists>res w' k. reloadUdev u w = Return (res, w') \<and> 1 \<le> k \<and> k \<le> 3 \<and>
     (res = None \<longrightarrow> k = 3) \<and>
     trace w' = trace w @ reload_trace (exec u) k \<and>
     files w' = files w"
proof -
  let ?a = "\<lambda>i. argv_of (exec u) (commands ! i)"
  let ?r = "\<lambda>i. proc_outcome w (length (trace w) + i) (?a i)"
  have run: "\<exists>res w'. reloadUdev u w = Return (res, w') \<and> files w' = files w \<and>
      (res = None \<longrightarrow> trace w' = trace w @ [Ev_Exec (?a 0), Ev_Exec (?a 1), Ev_Exec (?a 2)]) \<and>
      (trace w' = trace w @ [Ev_Exec (?a 0)] \<or>
       trace w' = trace w @ [Ev_Exec (?a 0), Ev_Exec (?a 1)] \<or>
       trace w' = trace w @ [Ev_Exec (?a 0), Ev_Exec (?a 1), Ev_Exec (?a 2)])"
    unfolding reloadUdev_def commands_def
    by (simp add: reloadUdev_loop_step Let_def glog_V_def del: reloadUdev_loop.simps(2)
          split: option.splits)
  have t1: "[Ev_Exec (?a 0)] = reload_trace (exec u) 1"
    and t2: "[Ev_Exec (?a 0), Ev_Exec (?a 1)] = reload_trace (exec u) 2"
    and t3: "[Ev_Exec (?a 0), Ev_Exec (?a 1), Ev_Exec (?a 2)] = reload_trace (exec u) 3"
    by (simp_all add: reload_trace_def commands_def)
  from run obtain res w' where
      r: "reloadUdev u w = Return (res, w')" "files w' = files w"
         "res = None \<longrightarrow> trace w' = trace w @ reload_trace (exec u) 3"
         "trace w' = trace w @ reload_trace (exec u) 1 \<or>
          trace w' = trace w @ reload_trace (exec u) 2 \<or>
          trace w' = trace w @ reload_trace (exec u) 3"
    unfolding t1 t2 t3 by blast
  show ?thesis
  proof (cases "res = None")
    case True
    with r show ?thesis by (intro exI [of _ res] exI [of _ w'] exI [of _ 3]) simp
  next
    case False
    from r(4) consider "trace w' = trace w @ reload_trace (exec u) 1"
      | "trace w' = trace w @ reload_trace (exec u) 2"
      | "trace w' = trace w @ reload_trace (exec u) 3" by blast
    then show ?thesis
    proof cases
      case 1
      with r False show ?thesis by (intro exI [of _ res] exI [of _ w'] exI [of _ 1]) simp
    next
      case 2
      with r False show ?thesis by (intro exI [of _ res] exI [of _ w'] exI [of _ 2]) simp
    next
      case 3
      with r False show ?thesis by (intro exI [of _ res] exI [of _ w'] exI [of _ 3]) simp
    qed
  qed
qed

lemma reloadUdev_not_Panic: "reloadUdev u w \<noteq> Panic"
  using reloadUdev_result [of u w] by auto

lemma applyConfig_not_Panic: "applyConfig u w \<noteq> Panic"
  using reloadUdev_not_Panic
  by (auto simp: applyConfig_def split: sum.splits prod.splits option.splits go.splits)

lemma removeUdevFile_not_Panic: "removeUdevFile u w \<noteq> Panic"
  using reloadUdev_not_Panic
  by (auto simp: removeUdevFile_def Let_def split: prod.splits option.splits go.splits)

lemma Run_loop_not_Panic: "Run_loop u sched w \<noteq> Panic"
proof (induction u sched w rule: Run_loop.induct)
  case (1 u w)
  show ?case by simp
next
  case (2 u f rest w)
  then show ?case
    using applyConfig_not_Panic [of u "interfere f w"]
    by (auto split: go.splits)
next
  case (3 u f rest w)
  show ?case
    using removeUdevFile_not_Panic [of u "glog_Infof ''stopping'' (interfere f w)"]
    by (auto split: go.splits)
qed

text \<open>
  C10. The direct runner indexes \<open>cmd[0]\<close> with no guard: it panics exactly on the
  empty vector. The namespace-entering runner indexes the wrapped vector, which always
  starts with \<open>nsenter\<close>: it panics on no vector at all. The three vectors of the
  reload sequence have three elements each, so that neither the reload sequence nor
  anything of the loop that calls it can panic, with either runner.
\<close>

theorem runners_index_guard:
  "(exec_Exec cmd w = Panic \<longleftrightarrow> cmd = []) \<and>
   nsenterExec_Exec hostProcDir cmd w \<noteq> Panic \<and>
   map length commands = [3, 3, 3] \<and>
   reloadUdev u w \<noteq> Panic \<and>
   applyConfig u w \<noteq> Panic \<and>
   removeUdevFile u w \<noteq> Panic \<and>
   Run u sched w \<noteq> Panic"
proof -
  have "exec_Exec cmd w = Panic \<longleftrightarrow> cmd = []"
    by (auto simp: exec_Exec_def CombinedOutput_def split: prod.splits option.splits)
  moreover have "nsenterExec_Exec hostProcDir cmd w \<noteq> Panic"
    by (auto simp: nsenterExec_Exec_def CombinedOutput_def Let_def split: prod.splits option.splits)
  moreover have "map length commands = [3, 3, 3]"
    by (simp add: commands_def)
  moreover have "Run u sched w \<noteq> Panic"
    using applyConfig_not_Panic [of u w] Run_loop_not_Panic
    by (auto simp: Run_def split: go.splits)
  ultimately show ?thesis
    using reloadUdev_not_Panic applyConfig_not_Panic removeUdevFile_not_Panic by blast
qed

theorem nsenterExec_empty_argv_counterexample:
  "nsenterExec_Exec ''/rootfs/proc'' [] quiet_world =
     Return (([], None),
       quiet_world\<lparr>trace := [Ev_Exec [''nsenter'', ''--mount=/rootfs/proc/1/ns/mnt'', ''--'']],
         logs := [(4, ''executed nsenter --mount=/rootfs/proc/1/ns/mnt --:  (success)'')]\<rparr>) \<and>
   nsenterExec_Exec ''/rootfs/proc'' [] quiet_world \<noteq> Panic \<and>
   exec_Exec [] quiet_world = Panic"
  by (simp add: nsenterExec_Exec_def exec_Exec_def CombinedOutput_def Let_def glog_V_def
        mountNsPath_def path_Clean_def)

section \<open>Shutdown\<close>



lemma interfere_fields [simp]:
  "trace (interfere f w) = trace w"
  "logs (interfere f w) = logs w"
  "files (interfere f w) = files (f w)"
  "read_fault (interfere f w) = read_fault (f w)"
  "open_fault (interfere f w) = open_fault (f w)"
  "write_fault (interfere f w) = write_fault (f w)"
  "remove_fault (interfere f w) = remove_fault (f w)"
  "proc_outcome (interfere f w) = proc_outcome (f w)"
  by (simp_all add: interfere_def)

lemma glog_fields [simp]:
  "trace (glog_V n msg w) = trace w"
  "files (glog_V n msg w) = files w"
  "read_fault (glog_V n msg w) = read_fault w"
  "open_fault (glog_V n msg w) = open_fault w"
  "write_fault (glog_V n msg w) = write_fault w"
  "remove_fault (glog_V n msg w) = remove_fault w"
  "proc_outcome (glog_V n msg w) = proc_outcome w"
  "logs (glog_V n msg w) = logs w @ [(n, msg)]"
  by (simp_all add: glog_V_def)




section \<open>Ticks\<close>

lemma applyConfig_unchanged:
  assumes "ioutil_ReadFile (configFile u) w = Inr (oldConfigContent u)"
  shows "applyConfig u w =
     Return (None, u, glog_V 4 ''no change detected, skipping config update'' w)"
  using assms by (simp add: applyConfig_def needApplyConfig_differs)

lemma applyConfig_changed:
  assumes "ioutil_ReadFile (configFile u) w = Inr config" and "config \<noteq> oldConfigContent u"
  shows "applyConfig u w =
     (case writeRulesFile u config w of
        (Some err, w1) \<Rightarrow> Return (Some err, u, w1)
      | (None, w1) \<Rightarrow>
          (case reloadUdev u w1 of
             Panic \<Rightarrow> Panic
           | Return (Some err, w2) \<Rightarrow>
               Return (Some (''failed to reload udev rules: '' @ err), u, w2)
           | Return (None, w2) \<Rightarrow>
               Return (None, u\<lparr>oldConfigContent := config\<rparr>,
                       glog_V 2 ''configuration applied'' w2)))"
  using assms by (simp add: applyConfig_def needApplyConfig_differs)

lemma applyConfig_nil_snapshot:
  assumes "ioutil_ReadFile (configFile u) w = Inr config"
    and "applyConfig u w = Return (None, u', w1)"
  shows "oldConfigContent u' = config \<and> configFile u' = configFile u"
proof (cases "config = oldConfigContent u")
  case True
  with assms applyConfig_unchanged [of u w] show ?thesis by simp
next
  case False
  with assms applyConfig_changed [of u w config] show ?thesis
    by (auto split: prod.splits option.splits go.splits)
qed

text \<open>
  C5. After an \<open>applyConfig\<close> that read \<open>config\<close> and returned no error, a tick that
  reads the same bytes, in whatever world, returns no error and changes neither the
  state nor the world but for one log line: no system call is issued, so no file is
  written and no command is run.
\<close>

theorem applied_config_is_not_reapplied:
  assumes "ioutil_ReadFile (configFile u) w = Inr config"
    and "applyConfig u w = Return (None, u', w1)"
    and "ioutil_ReadFile (configFile u) v = Inr config"
  shows "applyConfig u' v =
           Return (None, u', glog_V 4 ''no change detected, skipping config update'' v) \<and>
         trace (glog_V 4 ''no change detected, skipping config update'' v) = trace v \<and>
         files (glog_V 4 ''no change detected, skipping config update'' v) = files v"
  using applyConfig_nil_snapshot [OF assms(1,2)] assms(3) applyConfig_unchanged [of u' v]
  by simp

lemma pool_a_rulesFile:
  "rulesFile (NewUdevSync cf ''/run/udev/rules.d'' ''pool-a'' ex) =
     ''/run/udev/rules.d/99-kubernetes-pool-a.rules''"
  by (simp add: udevRulesTemplate_def path_Clean_def Let_def)

lemma reloadUdev_all_succeed:
  assumes "\<And>t argv. snd (proc_outcome w t argv) = None"
  shows "\<exists>w'. reloadUdev u w = Return (None, w') \<and> files w' = files w \<and>
     trace w' = trace w @ reload_trace (exec u) 3 \<and>
     read_fault w' = read_fault w \<and> open_fault w' = open_fault w \<and>
     write_fault w' = write_fault w \<and> remove_fault w' = remove_fault w \<and>
     proc_outcome w' = proc_outcome w"
  unfolding reloadUdev_def commands_def reload_trace_def
  by (simp add: reloadUdev_loop_step Let_def assms del: reloadUdev_loop.simps(2))

theorem applied_config_is_not_reapplied_witness:
  "\<exists>u' w1.
     applyConfig (NewUdevSync ''/etc/rules.conf'' ''/run/udev/rules.d'' ''pool-a'' NewExec)
       (with_file ''/etc/rules.conf'' ''KERNELS'' quiet_world) = Return (None, u', w1) \<and>
     oldConfigContent u' = ''KERNELS'' \<and>
     trace w1 =
       [Ev_Open ''/run/udev/rules.d/99-kubernetes-pool-a.rules'',
        Ev_Write ''/run/udev/rules.d/99-kubernetes-pool-a.rules''
          (render parsed_udevFileTemplate ''pool-a'' ''KERNELS'')] @ reload_trace NewExec 3 \<and>
     applyConfig u' w1 =
       Return (None, u', glog_V 4 ''no change detected, skipping config update'' w1)"
proof -
  let ?u = "NewUdevSync ''/etc/rules.conf'' ''/run/udev/rules.d'' ''pool-a'' NewExec"
  let ?w = "with_file ''/etc/rules.conf'' ''KERNELS'' quiet_world"
  let ?p = "''/run/udev/rules.d/99-kubernetes-pool-a.rules''"
  let ?wa = "?w\<lparr>trace := trace ?w @ [Ev_Open ?p, Ev_Write ?p (render parsed_udevFileTemplate ''pool-a'' ''KERNELS'')],
        files := (files ?w)(?p \<mapsto> render parsed_udevFileTemplate ''pool-a'' ''KERNELS''),
        logs := logs ?w @ [(2, ''configuration written to '' @ ?p)]\<rparr>"
  have rd: "ioutil_ReadFile (configFile ?u) ?w = Inr ''KERNELS''"
    by (simp add: ioutil_ReadFile_def)
  have wr: "writeRulesFile ?u ''KERNELS'' ?w = (None, ?wa)"
    using writeRulesFile_no_fault [of ?w ?u "''KERNELS''"]
    by (simp add: pool_a_rulesFile exec_udevFileTemplate_ok del: NewUdevSync_fields(4))
  from reloadUdev_all_succeed [of ?wa ?u] obtain w2 where
      rl: "reloadUdev ?u ?wa = Return (None, w2)" "files w2 = files ?wa"
          "trace w2 = trace ?wa @ reload_trace NewExec 3" "read_fault w2 = read_fault ?wa"
    by auto
  let ?u' = "?u\<lparr>oldConfigContent := ''KERNELS''\<rparr>"
  let ?w1 = "glog_V 2 ''configuration applied'' w2"
  have ap: "applyConfig ?u ?w = Return (None, ?u', ?w1)"
    using applyConfig_changed [OF rd] wr rl(1) by simp
  have rd': "ioutil_ReadFile (configFile ?u) ?w1 = Inr ''KERNELS''"
    using rl by (simp add: ioutil_ReadFile_def pool_a_rulesFile del: NewUdevSync_fields(4))
  from applied_config_is_not_reapplied [OF rd ap rd'] ap rl
  show ?thesis
    by (intro exI [of _ ?u'] exI [of _ ?w1]) (simp del: NewUdevSync_fields(4))
qed

section \<open>An empty configuration from the start\<close>

lemma ioutil_ReadFile_interfere [simp]:
  "ioutil_ReadFile p (interfere f w) = ioutil_ReadFile p (f w)"
  by (simp add: ioutil_ReadFile_def cong: option.case_cong)

lemma ioutil_ReadFile_glog [simp]:
  "ioutil_ReadFile p (glog_V n msg w) = ioutil_ReadFile p w"
  by (simp add: ioutil_ReadFile_def cong: option.case_cong)

lemma Run_loop_empty_config:
  assumes "oldConfigContent u = []"
    and "\<forall>(f, s) \<in> set sched. s = Tick \<and> (\<forall>v. ioutil_ReadFile (configFile u) (f v) = Inr [])"
  shows "\<exists>w'. Run_loop u sched w = Return (Running u w') \<and> trace w' = trace w"
  using assms(2)
proof (induction sched arbitrary: w)
  case Nil
  show ?case by simp
next
  case (Cons x sched)
  obtain f s where x: "x = (f, s)" by (cases x)
  with Cons.prems have s: "s = Tick"
    and rd: "ioutil_ReadFile (configFile u) (f w) = Inr (oldConfigContent u)"
    by (auto simp: assms(1))
  have rest: "\<forall>(f, s) \<in> set sched. s = Tick \<and> (\<forall>v. ioutil_ReadFile (configFile u) (f v) = Inr [])"
    using Cons.prems by simp
  let ?w1 = "glog_V 4 ''no change detected, skipping config update'' (interfere f w)"
  have "applyConfig u (interfere f w) = Return (None, u, ?w1)"
    using applyConfig_unchanged [of u "interfere f w"] rd by simp
  then have "Run_loop u (x # sched) w = Run_loop u sched ?w1"
    by (simp add: x s log_apply_error_def)
  with Cons.IH [OF rest, of ?w1] show ?case by simp
qed

text \<open>
  C9. From the state \<open>NewUdevSync\<close> builds, whose snapshot is empty, in a world where
  the configuration file reads as no bytes at all, the first \<open>applyConfig\<close> of \<open>Run\<close>
  and every tick after it, for as long as the file keeps reading empty, leave the state
  as it was and issue no system call: the loop is still running in its first state and
  the trace has not grown, so that no rules file was opened or written and no command
  was run.
\<close>

theorem empty_config_never_applied:
  assumes "ioutil_ReadFile configFile' w = Inr []"
    and "\<forall>(f, s) \<in> set sched. s = Tick \<and> (\<forall>v. ioutil_ReadFile configFile' (f v) = Inr [])"
  shows "\<exists>w'. Run (NewUdevSync configFile' rulesPath name' exec') sched w =
            Return (Running (NewUdevSync configFile' rulesPath name' exec') w') \<and>
          trace w' = trace w"
proof -
  let ?u = "NewUdevSync configFile' rulesPath name' exec'"
  let ?w1 = "glog_V 4 ''no change detected, skipping config update'' w"
  have "applyConfig ?u w = Return (None, ?u, ?w1)"
    using applyConfig_unchanged [of ?u w] assms(1) by simp
  then have "Run ?u sched w = Run_loop ?u sched ?w1"
    by (simp add: Run_def log_apply_error_def)
  with Run_loop_empty_config [of ?u sched ?w1] assms(2) show ?thesis
    by simp
qed

theorem empty_config_never_applied_witness:
  "\<exists>w'. Run (NewUdevSync ''/etc/rules.conf'' ''/run/udev/rules.d'' ''pool-a'' NewExec)
          [(\<lambda>v. with_file ''/etc/rules.conf'' [] quiet_world, Tick),
           (\<lambda>v. with_file ''/etc/rules.conf'' [] quiet_world, Tick)]
          (with_file ''/etc/rules.conf'' [] quiet_world) =
        Return (Running (NewUdevSync ''/etc/rules.conf'' ''/run/udev/rules.d'' ''pool-a'' NewExec) w') \<and>
      trace w' = []"
proof -
  have rd: "ioutil_ReadFile ''/etc/rules.conf'' (with_file ''/etc/rules.conf'' [] quiet_world) = Inr []"
    by (simp add: ioutil_ReadFile_def)
  have ticks: "\<forall>(f, s) \<in> set [(\<lambda>v. with_file ''/etc/rules.conf'' [] quiet_world, Tick),
           (\<lambda>v. with_file ''/etc/rules.conf'' [] quiet_world, Tick)].
      s = Tick \<and> (\<forall>v. ioutil_ReadFile ''/etc/rules.conf'' (f v) = Inr [])"
    using rd by simp
  from empty_config_never_applied [OF rd ticks, of "''/run/udev/rules.d''" "''pool-a''" NewExec]
  show ?thesis by simp
qed

section \<open>A failed reload\<close>

lemma reloadUdev_preserves:
  assumes "reloadUdev u w = Return (res, w')"
  shows "files w' = files w \<and> read_fault w' = read_fault w \<and> open_fault w' = open_fault w \<and>
         write_fault w' = write_fault w \<and> remove_fault w' = remove_fault w \<and>
         proc_outcome w' = proc_outcome w"
  using assms unfolding reloadUdev_def commands_def
  by (auto simp add: reloadUdev_loop_step Let_def glog_V_def simp del: reloadUdev_loop.simps(2)
        split: option.splits)

text \<open>
  C3. Let \<open>applyConfig\<close> read \<open>cfg1\<close>, find it changed, write the rules file, and
  let the reload sequence fail. Then \<open>applyConfig\<close> returns the reload error and the
  state is the one it started from, \<open>oldConfigContent\<close> included. A later tick that
  reads \<open>cfg1\<close> again, in whatever world, still finds it changed and opens the rules
  file to write it anew; absent a fault of the file system it writes the whole rendering
  and starts the reload sequence from its first command, and takes \<open>cfg1\<close> as the
  snapshot if that pass succeeds.
\<close>

theorem reload_failure_keeps_snapshot:
  assumes "ioutil_ReadFile (configFile u) w = Inr cfg1"
    and "needApplyConfig u cfg1"
    and "writeRulesFile u cfg1 w = (None, w1)"
    and "reloadUdev u w1 = Return (Some e, w2)"
    and "ioutil_ReadFile (configFile u) v = Inr cfg1"
  shows "applyConfig u w = Return (Some (''failed to reload udev rules: '' @ e), u, w2) \<and>
         needApplyConfig u cfg1 \<and>
         (\<exists>res u' v'. applyConfig u v = Return (res, u', v') \<and>
            (\<exists>rest. trace v' = trace v @ Ev_Open (rulesFile u) # rest) \<and>
            (open_fault v (rulesFile u) = None \<and> write_fault v (rulesFile u) = None \<longrightarrow>
               (\<exists>k. 1 \<le> k \<and> k \<le> 3 \<and>
                  trace v' = trace v @
                    [Ev_Open (rulesFile u),
                     Ev_Write (rulesFile u) (render (udevTemplate u) (name u) cfg1)] @
                    reload_trace (exec u) k \<and>
                  (res = None \<longrightarrow> k = 3 \<and> u' = u\<lparr>oldConfigContent := cfg1\<rparr>))))"
proof -
  from assms(2) have diff: "cfg1 \<noteq> oldConfigContent u"
    by (simp add: needApplyConfig_differs)
  have first: "applyConfig u w = Return (Some (''failed to reload udev rules: '' @ e), u, w2)"
    using applyConfig_changed [OF assms(1) diff] assms(3,4) by simp
  let ?p = "rulesFile u"
  let ?d = "render (udevTemplate u) (name u) cfg1"
  have again: "applyConfig u v =
     (case writeRulesFile u cfg1 v of
        (Some err, v1) \<Rightarrow> Return (Some err, u, v1)
      | (None, v1) \<Rightarrow>
          (case reloadUdev u v1 of
             Panic \<Rightarrow> Panic
           | Return (Some err, v2) \<Rightarrow>
               Return (Some (''failed to reload udev rules: '' @ err), u, v2)
           | Return (None, v2) \<Rightarrow>
               Return (None, u\<lparr>oldConfigContent := cfg1\<rparr>,
                       glog_V 2 ''configuration applied'' v2)))"
    by (rule applyConfig_changed [OF assms(5) diff])
  obtain r1 v1 where wr: "writeRulesFile u cfg1 v = (r1, v1)"
    by (cases "writeRulesFile u cfg1 v")
  from writeRulesFile_trace [of u cfg1 v] wr obtain rest1 where
      t1: "trace v1 = trace v @ Ev_Open ?p # rest1"
    by auto
  from reloadUdev_result [of u v1] obtain res2 v2 k where
      rl: "reloadUdev u v1 = Return (res2, v2)" "1 \<le> k" "k \<le> 3" "res2 = None \<longrightarrow> k = 3"
          "trace v2 = trace v1 @ reload_trace (exec u) k"
    by blast
  have tmpl: "snd (exec_nodes (udevTemplate u) (name u) cfg1) = None"
    using assms(3) by (rule writeRulesFile_nil_template)
  have nofault: "open_fault v ?p = None \<and> write_fault v ?p = None \<longrightarrow>
      trace v1 = trace v @ [Ev_Open ?p, Ev_Write ?p ?d] \<and> r1 = None"
    using writeRulesFile_no_fault [of v u cfg1] wr tmpl by auto
  show ?thesis
  proof (cases r1)
    case (Some err)
    with again wr have "applyConfig u v = Return (Some err, u, v1)" by simp
    moreover have "\<not> (open_fault v ?p = None \<and> write_fault v ?p = None)"
      using nofault Some by simp
    ultimately show ?thesis
      using first assms(2) t1 by auto
  next
    case None
    show ?thesis
    proof (cases res2)
      case (Some err)
      with again wr None rl(1)
      have ap: "applyConfig u v = Return (Some (''failed to reload udev rules: '' @ err), u, v2)"
        by simp
      have tr: "trace v2 = trace v @ Ev_Open ?p # (rest1 @ reload_trace (exec u) k)"
        using rl(5) t1 by simp
      have full: "open_fault v ?p = None \<and> write_fault v ?p = None \<longrightarrow>
          trace v2 = trace v @ [Ev_Open ?p, Ev_Write ?p ?d] @ reload_trace (exec u) k"
        using nofault rl(5) by auto
      show ?thesis
        using first assms(2) ap tr full rl(2,3) by auto
    next
      case res2_None: None
      let ?v3 = "glog_V 2 ''configuration applied'' v2"
      from again wr None rl(1) res2_None
      have ap: "applyConfig u v = Return (None, u\<lparr>oldConfigContent := cfg1\<rparr>, ?v3)"
        by simp
      have tr: "trace ?v3 = trace v @ Ev_Open ?p # (rest1 @ reload_trace (exec u) k)"
        using rl(5) t1 by simp
      have full: "open_fault v ?p = None \<and> write_fault v ?p = None \<longrightarrow>
          trace ?v3 = trace v @ [Ev_Open ?p, Ev_Write ?p ?d] @ reload_trace (exec u) k"
        using nofault rl(5) by auto
      have k3: "k = 3" using rl(4) res2_None by simp
      show ?thesis
        using first assms(2) ap tr full k3 by auto
    qed
  qed
qed

theorem reload_failure_keeps_snapshot_witness:
  "\<exists>e w2.
     applyConfig (NewUdevSync ''/etc/rules.conf'' ''/run/udev/rules.d'' ''pool-a'' NewExec)
       (failing ''settle'' (with_file ''/etc/rules.conf'' ''KERNELS'' quiet_world)) =
       Return (Some (''failed to reload udev rules: '' @ e),
               NewUdevSync ''/etc/rules.conf'' ''/run/udev/rules.d'' ''pool-a'' NewExec, w2) \<and>
     (\<exists>res u' v' k.
        applyConfig (NewUdevSync ''/etc/rules.conf'' ''/run/udev/rules.d'' ''pool-a'' NewExec) w2 =
          Return (res, u', v') \<and>
        trace v' = trace w2 @
          [Ev_Open ''/run/udev/rules.d/99-kubernetes-pool-a.rules'',
           Ev_Write ''/run/udev/rules.d/99-kubernetes-pool-a.rules''
             (render parsed_udevFileTemplate ''pool-a'' ''KERNELS'')] @
          reload_trace NewExec k)"
proof -
  let ?u = "NewUdevSync ''/etc/rules.conf'' ''/run/udev/rules.d'' ''pool-a'' NewExec"
  let ?w = "failing ''settle'' (with_file ''/etc/rules.conf'' ''KERNELS'' quiet_world)"
  let ?p = "''/run/udev/rules.d/99-kubernetes-pool-a.rules''"
  let ?wa = "?w\<lparr>trace := trace ?w @ [Ev_Open ?p, Ev_Write ?p (render parsed_udevFileTemplate ''pool-a'' ''KERNELS'')],
        files := (files ?w)(?p \<mapsto> render parsed_udevFileTemplate ''pool-a'' ''KERNELS''),
        logs := logs ?w @ [(2, ''configuration written to '' @ ?p)]\<rparr>"
  have rd: "ioutil_ReadFile (configFile ?u) ?w = Inr ''KERNELS''"
    by (simp add: ioutil_ReadFile_def)
  have need: "needApplyConfig ?u ''KERNELS''"
    by (simp add: needApplyConfig_differs)
  have wr: "writeRulesFile ?u ''KERNELS'' ?w = (None, ?wa)"
    using writeRulesFile_no_fault [of ?w ?u "''KERNELS''"]
    by (simp add: pool_a_rulesFile exec_udevFileTemplate_ok del: NewUdevSync_fields(4))
  have "\<exists>e w2. reloadUdev ?u ?wa = Return (Some e, w2)"
    unfolding reloadUdev_def commands_def
    by (simp add: reloadUdev_loop_step Let_def del: reloadUdev_loop.simps(2))
  then obtain e w2 where rl: "reloadUdev ?u ?wa = Return (Some e, w2)"
    by blast
  have rd2: "ioutil_ReadFile (configFile ?u) w2 = Inr ''KERNELS''"
    using reloadUdev_preserves [OF rl] by (simp add: ioutil_ReadFile_def)
  have nf: "open_fault w2 ?p = None \<and> write_fault w2 ?p = None"
    using reloadUdev_preserves [OF rl] by simp
  from reload_failure_keeps_snapshot [OF rd need wr rl rd2] nf
  show ?thesis
    by (simp add: pool_a_rulesFile del: NewUdevSync_fields(4)) blast
qed

end
